theory Spec2Isabelle
  imports Main "HOL-Library.Char_ord" "HOL-Library.List_Lexorder" "HOL-Library.AList"
begin

section \<open>Byte sequences and errors\<close>

text \<open>
  Go's \<open>[]byte\<close> and \<open>string\<close> are sequences of bytes; \<open>char\<close> is one byte, and
  lists of them are ordered as \<open>bytes.Compare\<close> orders them: lexicographically, bytes
  compared unsigned, a proper prefix first. A \<open>[]byte\<close> argument that is \<open>nil\<close> behaves as
  the empty sequence in everything the package does with its arguments (\<open>len\<close>,
  \<open>bytes.Equal\<close>, \<open>Put\<close>), so arguments are plain byte lists. A \<open>[]byte\<close> result, where
  \<open>nil\<close> means "absent", is a \<open>bytes option\<close> with \<open>None\<close> for \<open>nil\<close>.
\<close>

type_synonym bytes = "char list"

text \<open>
  The errors of db.go (\<open>errors.New\<close>), the errors of the storage library that the calls
  made by db.go can return, a failed open, and the nil dereference of a bucket that
  does not exist (a panic in Go; the transaction is rolled back).
\<close>

datatype error =
    ReadOnlyMode
  | KeyDoesNotExist
  | ValueDoesNotMatch
  | ErrKeyRequired
  | ErrKeyTooLarge
  | ErrValueTooLarge
  | ErrBucketNameRequired
  | NilBucketPanic
  | OpenError

section \<open>The storage library, as db.go uses it\<close>

text \<open>
  A bucket is an ordered key/value store. Its content is the sequence of its entries
  in key order, as a cursor walks it. A transaction sees the buckets of the file by
  name.
\<close>

type_synonym bucket = "(bytes \<times> bytes) list"

type_synonym tx = "(bytes \<times> bucket) list"

definition MaxKeySize :: nat where
  "MaxKeySize = 32768"

definition MaxValueSize :: nat where
  "MaxValueSize = 2 ^ 31 - 2"

text \<open>\<open>seek\<close>: the first entry whose key is not below the key looked for.\<close>

fun seek :: "bytes \<Rightarrow> bucket \<Rightarrow> (bytes \<times> bytes) option" where
  "seek key [] = None"
| "seek key ((k, v) # es) = (if k < key then seek key es else Some (k, v))"

text \<open>
  Insertion at the position found by the search: an entry with the same key is
  replaced, otherwise the new entry goes before the first larger key.
\<close>

fun node_put :: "bytes \<Rightarrow> bytes \<Rightarrow> bucket \<Rightarrow> bucket" where
  "node_put key val [] = [(key, val)]"
| "node_put key val ((k, v) # es) =
     (if k < key then (k, v) # node_put key val es
      else if k = key then (key, val) # es
      else (key, val) # (k, v) # es)"

text \<open>Removal at the position found by the search, when the key there is the same.\<close>

fun node_del :: "bytes \<Rightarrow> bucket \<Rightarrow> bucket" where
  "node_del key [] = []"
| "node_del key ((k, v) # es) =
     (if k < key then (k, v) # node_del key es
      else if k = key then es
      else (k, v) # es)"

text \<open>\<open>Bucket.Get\<close>: the value at the key, \<open>nil\<close> when the entry found has another key.\<close>

definition Get :: "bucket \<Rightarrow> bytes \<Rightarrow> bytes option" where
  "Get b key =
     (case seek key b of
        None \<Rightarrow> None
      | Some (k, v) \<Rightarrow> if k = key then Some v else None)"

text \<open>\<open>Bucket.Put\<close>: refuses an empty key, a key or a value that is too large.\<close>

definition Put :: "bucket \<Rightarrow> bytes \<Rightarrow> bytes \<Rightarrow> error + bucket" where
  "Put b key val =
     (if length key = 0 then Inl ErrKeyRequired
      else if length key > MaxKeySize then Inl ErrKeyTooLarge
      else if length val > MaxValueSize then Inl ErrValueTooLarge
      else Inr (node_put key val b))"

text \<open>\<open>Bucket.Delete\<close>: no error when the key is absent.\<close>

definition Delete :: "bucket \<Rightarrow> bytes \<Rightarrow> error + bucket" where
  "Delete b key = Inr (node_del key b)"


text \<open>
  \<open>Bucket.ForEach\<close>: calls the function on every entry in key order and stops at the
  first error. The variables the Go closure captures are the state \<open>s\<close>.
\<close>

fun ForEach :: "bucket \<Rightarrow> (bytes \<Rightarrow> bytes \<Rightarrow> 's \<Rightarrow> error option \<times> 's) \<Rightarrow> 's \<Rightarrow> error option \<times> 's" where
  "ForEach [] fn s = (None, s)"
| "ForEach ((k, v) # es) fn s =
     (case fn k v s of
        (Some e, s') \<Rightarrow> (Some e, s')
      | (None, s') \<Rightarrow> ForEach es fn s')"

text \<open>\<open>Tx.Bucket\<close>: the bucket of that name, \<open>nil\<close> when there is none.\<close>

definition Bucket :: "tx \<Rightarrow> bytes \<Rightarrow> bucket option" where
  "Bucket t name = map_of t name"

text \<open>
  A Go \<open>*Bucket\<close> is a handle into the transaction: what is done through it is seen by
  the transaction. \<open>setBucket\<close> writes the changed content back under its name.
\<close>

definition setBucket :: "tx \<Rightarrow> bytes \<Rightarrow> bucket \<Rightarrow> tx" where
  "setBucket t name b = AList.update name b t"

text \<open>\<open>Tx.CreateBucketIfNotExists\<close>: an existing bucket is kept as it is.\<close>

definition CreateBucketIfNotExists :: "tx \<Rightarrow> bytes \<Rightarrow> error + tx" where
  "CreateBucketIfNotExists t name =
     (if length name = 0 then Inl ErrBucketNameRequired
      else case Bucket t name of
        Some b \<Rightarrow> Inr t
      | None \<Rightarrow> Inr (setBucket t name []))"

text \<open>
  \<open>DB.Update\<close>: runs the function in a read-write transaction, commits what it did when
  it returns \<open>nil\<close>, and rolls everything back when it returns an error.
  \<open>DB.View\<close>: runs the function in a read-only transaction.
\<close>

definition Update :: "tx \<Rightarrow> (tx \<Rightarrow> error + tx) \<Rightarrow> error option \<times> tx" where
  "Update t fn = (case fn t of Inl e \<Rightarrow> (Some e, t) | Inr t' \<Rightarrow> (None, t'))"

definition View :: "tx \<Rightarrow> (tx \<Rightarrow> error option \<times> 'r) \<Rightarrow> error option \<times> 'r" where
  "View t fn = fn t"

section \<open>db.go\<close>

definition defaultBucket :: bytes where
  "defaultBucket = ''default''"

definition replicaBucket :: bytes where
  "replicaBucket = ''replication''"

record Database =
  db :: tx
  readOnly :: bool

text \<open>\<open>t.Bucket(name).Put(key, value)\<close>, with the panic of a nil bucket as an error.\<close>

definition bucketPut :: "tx \<Rightarrow> bytes \<Rightarrow> bytes \<Rightarrow> bytes \<Rightarrow> error + tx" where
  "bucketPut t name key val =
     (case Bucket t name of
        None \<Rightarrow> Inl NilBucketPanic
      | Some b \<Rightarrow>
          (case Put b key val of
             Inl e \<Rightarrow> Inl e
           | Inr b' \<Rightarrow> Inr (setBucket t name b')))"

definition createDefaultBucket :: "Database \<Rightarrow> error option \<times> Database" where
  "createDefaultBucket d =
     (case Update (db d) (\<lambda>t.
        case CreateBucketIfNotExists t defaultBucket of
          Inl e \<Rightarrow> Inl e
        | Inr t1 \<Rightarrow>
            (case CreateBucketIfNotExists t1 replicaBucket of
               Inl e \<Rightarrow> Inl e
             | Inr t2 \<Rightarrow> Inr t2))
      of (err, t') \<Rightarrow> (err, d\<lparr>db := t'\<rparr>))"

text \<open>
  \<open>NewDatabase\<close>: \<open>opened\<close> is what \<open>bolt.Open\<close> returns, an error or the content of the
  file (no bucket at all in a file just created).
\<close>

definition NewDatabase :: "error + tx \<Rightarrow> bool \<Rightarrow> error + Database" where
  "NewDatabase opened ro =
     (case opened of
        Inl e \<Rightarrow> Inl e
      | Inr boltDb \<Rightarrow>
          (case createDefaultBucket \<lparr>db = boltDb, readOnly = ro\<rparr> of
             (Some e, d) \<Rightarrow> Inl e
           | (None, d) \<Rightarrow> Inr d))"

definition SetKey :: "Database \<Rightarrow> bytes \<Rightarrow> bytes \<Rightarrow> error option \<times> Database" where
  "SetKey d key val =
     (if readOnly d then (Some ReadOnlyMode, d)
      else case Update (db d) (\<lambda>t.
        case bucketPut t defaultBucket key val of
          Inl e \<Rightarrow> Inl e
        | Inr t1 \<Rightarrow> bucketPut t1 replicaBucket key val)
      of (err, t') \<Rightarrow> (err, d\<lparr>db := t'\<rparr>))"

definition GetKey :: "Database \<Rightarrow> bytes \<Rightarrow> bytes option \<times> error option" where
  "GetKey d key =
     (case View (db d) (\<lambda>t.
        case Bucket t defaultBucket of
          None \<Rightarrow> (Some NilBucketPanic, None)
        | Some b \<Rightarrow> (None, Get b key))
      of (err, res) \<Rightarrow> (res, err))"




definition DeleteReplicationKey :: "Database \<Rightarrow> bytes \<Rightarrow> bytes \<Rightarrow> error option \<times> Database" where
  "DeleteReplicationKey d key val =
     (case Update (db d) (\<lambda>t.
        case Bucket t replicaBucket of
          None \<Rightarrow> Inl NilBucketPanic
        | Some b \<Rightarrow>
            (case Get b key of
               None \<Rightarrow> Inl KeyDoesNotExist
             | Some v \<Rightarrow>
                 if v \<noteq> val then Inl ValueDoesNotMatch
                 else (case Delete b key of
                         Inl e \<Rightarrow> Inl e
                       | Inr b' \<Rightarrow> Inr (setBucket t replicaBucket b'))))
      of (err, t') \<Rightarrow> (err, d\<lparr>db := t'\<rparr>))"

text \<open>The loop of the second transaction of \<open>DeleteExtraKeys\<close>.\<close>

fun deleteKeys :: "bucket \<Rightarrow> bytes list \<Rightarrow> error + bucket" where
  "deleteKeys b [] = Inr b"
| "deleteKeys b (k # ks) =
     (case Delete b k of
        Inl e \<Rightarrow> Inl e
      | Inr b' \<Rightarrow> deleteKeys b' ks)"

text \<open>The first transaction of \<open>DeleteExtraKeys\<close>: the keys collected by the scan.\<close>

definition scanExtraKeys :: "tx \<Rightarrow> (bytes \<Rightarrow> bool) \<Rightarrow> error option \<times> bytes list" where
  "scanExtraKeys t isExtra =
     View t (\<lambda>t.
       case Bucket t defaultBucket of
         None \<Rightarrow> (Some NilBucketPanic, [])
       | Some b \<Rightarrow>
           ForEach b (\<lambda>k v keys. (None, if isExtra k then keys @ [k] else keys)) [])"

definition DeleteExtraKeys :: "Database \<Rightarrow> (bytes \<Rightarrow> bool) \<Rightarrow> error option \<times> Database" where
  "DeleteExtraKeys d isExtra =
     (case scanExtraKeys (db d) isExtra of
        (Some e, keys) \<Rightarrow> (Some e, d)
      | (None, keys) \<Rightarrow>
          (case Update (db d) (\<lambda>t.
             case Bucket t defaultBucket of
               None \<Rightarrow> Inl NilBucketPanic
             | Some b \<Rightarrow>
                 (case deleteKeys b keys of
                    Inl e \<Rightarrow> Inl e
                  | Inr b' \<Rightarrow> Inr (setBucket t defaultBucket b')))
           of (err, t') \<Rightarrow> (err, d\<lparr>db := t'\<rparr>)))"

section \<open>Histories of calls\<close>

text \<open>
  A call of the package and the handle it leaves behind. \<open>GetKey\<close> and
  \<open>GetNextForReplication\<close> run in read-only transactions and return no new state.
\<close>

datatype op =
    OpSetKey bytes bytes
  | OpGetKey bytes
  | OpGetNextForReplication
  | OpDeleteReplicationKey bytes bytes
  | OpDeleteExtraKeys "bytes \<Rightarrow> bool"

fun exec :: "Database \<Rightarrow> op \<Rightarrow> Database" where
  "exec d (OpSetKey k v) = snd (SetKey d k v)"
| "exec d (OpGetKey k) = d"
| "exec d OpGetNextForReplication = d"
| "exec d (OpDeleteReplicationKey k v) = snd (DeleteReplicationKey d k v)"
| "exec d (OpDeleteExtraKeys isExtra) = snd (DeleteExtraKeys d isExtra)"

fun run :: "Database \<Rightarrow> op list \<Rightarrow> Database" where
  "run d [] = d"
| "run d (x # xs) = run (exec d x) xs"




section \<open>The two regions of a handle and its invariant\<close>

definition primary :: "Database \<Rightarrow> bucket" where
  "primary d = (case Bucket (db d) defaultBucket of None \<Rightarrow> [] | Some b \<Rightarrow> b)"

definition outbox :: "Database \<Rightarrow> bucket" where
  "outbox d = (case Bucket (db d) replicaBucket of None \<Rightarrow> [] | Some b \<Rightarrow> b)"

text \<open>The entries of a bucket are in strictly increasing key order.\<close>

definition sorted_keys :: "bucket \<Rightarrow> bool" where
  "sorted_keys b = sorted_wrt (<) (map fst b)"

text \<open>
  A handle as \<open>NewDatabase\<close> returns it and as every call leaves it: both buckets
  exist and are in key order.
\<close>

definition wf :: "Database \<Rightarrow> bool" where
  "wf d =
     (case Bucket (db d) defaultBucket of
        None \<Rightarrow> False
      | Some p \<Rightarrow>
          (case Bucket (db d) replicaBucket of
             None \<Rightarrow> False
           | Some r \<Rightarrow> sorted_keys p \<and> sorted_keys r))"


section \<open>main.go\<close>

text \<open>
  The command line: for each flag the value given, \<open>None\<close> when the flag is absent.
  \<open>flag.String name dflt\<close> is the value given, or the default.
\<close>

record cmdline =
  arg_db_location :: "string option"
  arg_http_addr :: "string option"
  arg_config_file :: "string option"
  arg_shard :: "string option"

record flags =
  dbLocation :: string
  httpAddr :: string
  configFileName :: string
  shard :: string

definition flag_String :: "string \<Rightarrow> string option \<Rightarrow> string" where
  "flag_String dflt given = (case given of None \<Rightarrow> dflt | Some s \<Rightarrow> s)"

definition flag_Parse :: "cmdline \<Rightarrow> flags" where
  "flag_Parse c =
     \<lparr>dbLocation = flag_String [] (arg_db_location c),
      httpAddr = flag_String [] (arg_http_addr c),
      configFileName = flag_String ''sharding.toml'' (arg_config_file c),
      shard = flag_String [] (arg_shard c)\<rparr>"

text \<open>
  How the process goes on: \<open>log.Fatal\<close> with its message, \<open>log.Fatalf\<close> of a failed
  \<open>NewDatabase\<close> with its two arguments, or the server listening on an address.
\<close>

datatype outcome =
    Fatal string
  | Fatalf_NewDataBase string string
  | ListenAndServe string

text \<open>\<open>init\<close>: the message of the \<open>log.Fatal\<close> reached, \<open>None\<close> when it returns.\<close>

definition init :: "flags \<Rightarrow> string option" where
  "init f =
     (if httpAddr f = [] then Some ''Must provide http-addr''
      else if dbLocation f = [] then Some ''Must provide db-location''
      else if shard f = [] then Some ''Must provide shard''
      else None)"

text \<open>
  \<open>main\<close>: the packages \<open>config\<close> and \<open>httpd\<close> and the file system are parameters:
  \<open>ParseFile\<close>, \<open>ParseShards\<close> and \<open>NewDatabase\<close> return an error message or a value.
\<close>

definition main ::
  "(string \<Rightarrow> string + 'c) \<Rightarrow> ('c \<Rightarrow> string \<Rightarrow> string + 's) \<Rightarrow> (string \<Rightarrow> string + 'd)
     \<Rightarrow> flags \<Rightarrow> outcome" where
  "main ParseFile ParseShards newDatabase f =
     (case ParseFile (configFileName f) of
        Inl err \<Rightarrow> Fatal err
      | Inr cfg \<Rightarrow>
          (case ParseShards cfg (shard f) of
             Inl err \<Rightarrow> Fatal err
           | Inr shards \<Rightarrow>
               (case newDatabase (dbLocation f) of
                  Inl err \<Rightarrow> Fatalf_NewDataBase (dbLocation f) err
                | Inr database \<Rightarrow> ListenAndServe (httpAddr f))))"

text \<open>The process: the flags are parsed, \<open>init\<close> runs, then \<open>main\<close>.\<close>

definition process ::
  "(string \<Rightarrow> string + 'c) \<Rightarrow> ('c \<Rightarrow> string \<Rightarrow> string + 's) \<Rightarrow> (string \<Rightarrow> string + 'd)
     \<Rightarrow> cmdline \<Rightarrow> outcome" where
  "process ParseFile ParseShards newDatabase c =
     (case init (flag_Parse c) of
        Some msg \<Rightarrow> Fatal msg
      | None \<Rightarrow> main ParseFile ParseShards newDatabase (flag_Parse c))"

definition isFatal :: "outcome \<Rightarrow> bool" where
  "isFatal x = (case x of ListenAndServe a \<Rightarrow> False | _ \<Rightarrow> True)"

text \<open>An environment in which every step of \<open>main\<close> succeeds.\<close>

definition okParseFile :: "string \<Rightarrow> string + unit" where
  "okParseFile path = Inr ()"

definition okParseShards :: "unit \<Rightarrow> string \<Rightarrow> string + unit" where
  "okParseShards cfg nm = Inr ()"

definition okNewDatabase :: "string \<Rightarrow> string + unit" where
  "okNewDatabase path = Inr ()"

section \<open>The shard table\<close>

text \<open>
  Modelled from the spec: the package \<open>config\<close> (the shard list, the construction of
  the shard table and the ownership function) is not among the sources. The records,
  \<open>build\<close> and \<open>ownerIndex\<close> follow sections 3 and 4.1 of the specification. The
  specification fixes no hash algorithm: the hash of the raw key bytes is the
  parameter \<open>hash\<close>.
\<close>

record Shard =
  name :: string
  index :: nat
  address :: string

record ShardTable =
  shards :: "Shard list"
  count :: nat
  selfIndex :: nat



text \<open>
  Modelled from the spec: \<open>ownerIndex\<close> is the hash of the raw key bytes, reduced modulo
  \<open>count\<close>; a key is owned when its owner index is the own index, and extra otherwise.
\<close>

definition ownerIndex :: "(bytes \<Rightarrow> nat) \<Rightarrow> ShardTable \<Rightarrow> bytes \<Rightarrow> nat" where
  "ownerIndex hash t key = hash key mod count t"

definition isOwnedByMe :: "(bytes \<Rightarrow> nat) \<Rightarrow> ShardTable \<Rightarrow> bytes \<Rightarrow> bool" where
  "isOwnedByMe hash t key = (ownerIndex hash t key = selfIndex t)"

definition isExtra :: "(bytes \<Rightarrow> nat) \<Rightarrow> ShardTable \<Rightarrow> bytes \<Rightarrow> bool" where
  "isExtra hash t key = (\<not> isOwnedByMe hash t key)"

section \<open>Facts about buckets and handles\<close>

lemma Get_Nil: "Get [] key = None"
  by (simp add: Get_def)

lemma Get_Cons:
  "Get ((k, v) # es) key = (if k < key then Get es key else if k = key then Some v else None)"
  by (simp add: Get_def)

lemma sorted_keys_Nil: "sorted_keys []"
  by (simp add: sorted_keys_def)

lemma sorted_keys_Cons:
  "sorted_keys ((k, v) # es) = ((\<forall>e\<in>set es. k < fst e) \<and> sorted_keys es)"
  by (simp add: sorted_keys_def)

lemma map_of_above:
  fixes k :: bytes and es :: bucket
  shows "\<forall>e\<in>set es. k < fst e \<Longrightarrow> key \<le> k \<Longrightarrow> map_of es key = None"
proof -
  assume a: "\<forall>e\<in>set es. k < fst e" and b: "key \<le> k"
  have "key \<notin> fst ` set es"
  proof
    assume "key \<in> fst ` set es"
    then obtain e where "e \<in> set es" "fst e = key" by auto
    with a have "k < key" by auto
    with b show False by (metis leD)
  qed
  then show ?thesis by (simp add: map_of_eq_None_iff)
qed

lemma Get_map_of: "sorted_keys b \<Longrightarrow> Get b key = map_of b key"
proof (induction b)
  case Nil
  show ?case by (simp add: Get_Nil)
next
  case (Cons a es)
  obtain k v where a: "a = (k, v)" by (cases a)
  from Cons.prems a have above: "\<forall>e\<in>set es. k < fst e" and s: "sorted_keys es"
    by (simp_all add: sorted_keys_Cons)
  show ?case
  proof (cases "k < key")
    case True
    then have "k \<noteq> key" by (metis less_irrefl)
    with True show ?thesis using Cons.IH [OF s] a by (simp add: Get_Cons)
  next
    case False
    then have "key \<le> k" by simp
    from map_of_above [OF above this] False show ?thesis
      using a by (simp add: Get_Cons)
  qed
qed


lemma set_node_put: "fst ` set (node_put key val b) = insert key (fst ` set b)"
proof (induction b)
  case Nil
  show ?case by simp
next
  case (Cons a es)
  obtain k v where a: "a = (k, v)" by (cases a)
  show ?case using Cons.IH a by auto
qed


lemma sorted_node_put: "sorted_keys b \<Longrightarrow> sorted_keys (node_put key val b)"
proof (induction b)
  case Nil
  show ?case by (simp add: sorted_keys_def)
next
  case (Cons a es)
  obtain k v where a: "a = (k, v)" by (cases a)
  from Cons.prems a have above: "\<forall>e\<in>set es. k < fst e" and s: "sorted_keys es"
    by (simp_all add: sorted_keys_Cons)
  consider (lt) "k < key" | (eq) "k = key" | (gt) "key < k"
    by (metis less_linear)
  then show ?case
  proof cases
    case lt
    have "\<forall>x\<in>fst ` set (node_put key val es). k < x"
      using above lt by (simp add: set_node_put)
    then have "\<forall>e\<in>set (node_put key val es). k < fst e" by simp
    with lt Cons.IH [OF s] a show ?thesis by (simp add: sorted_keys_Cons)
  next
    case eq
    with above s a show ?thesis by (simp add: sorted_keys_Cons)
  next
    case gt
    then have n: "\<not> k < key" "k \<noteq> key" by (metis less_asym, metis less_irrefl)
    have "\<forall>e\<in>set es. key < fst e" using above gt by (metis less_trans)
    with gt n above s a show ?thesis by (simp add: sorted_keys_Cons)
  qed
qed

lemma filter_above:
  fixes key :: bytes and es :: bucket
  shows "\<forall>e\<in>set es. key < fst e \<Longrightarrow> filter (\<lambda>e. fst e \<noteq> key) es = es"
proof -
  assume a: "\<forall>e\<in>set es. key < fst e"
  have "\<forall>e\<in>set es. fst e \<noteq> key"
  proof
    fix e assume "e \<in> set es"
    with a have "key < fst e" by simp
    then show "fst e \<noteq> key" by (metis less_irrefl)
  qed
  then show ?thesis by (simp add: filter_id_conv)
qed

lemma node_del_filter:
  "sorted_keys b \<Longrightarrow> node_del key b = filter (\<lambda>e. fst e \<noteq> key) b"
proof (induction b)
  case Nil
  show ?case by simp
next
  case (Cons a es)
  obtain k v where a: "a = (k, v)" by (cases a)
  from Cons.prems a have above: "\<forall>e\<in>set es. k < fst e" and s: "sorted_keys es"
    by (simp_all add: sorted_keys_Cons)
  consider (lt) "k < key" | (eq) "k = key" | (gt) "key < k"
    by (metis less_linear)
  then show ?case
  proof cases
    case lt
    then have "k \<noteq> key" by (metis less_irrefl)
    with lt Cons.IH [OF s] a show ?thesis by simp
  next
    case eq
    with above have "\<forall>e\<in>set es. key < fst e" by simp
    from filter_above [OF this] eq a show ?thesis by simp
  next
    case gt
    then have n: "\<not> k < key" "k \<noteq> key" by (metis less_asym, metis less_irrefl)
    have "\<forall>e\<in>set es. key < fst e" using above gt by (metis less_trans)
    from filter_above [OF this] n a show ?thesis by simp
  qed
qed

lemma sorted_keys_filter: "sorted_keys b \<Longrightarrow> sorted_keys (filter P b)"
proof (induction b)
  case Nil
  show ?case by (simp add: sorted_keys_def)
next
  case (Cons a es)
  obtain k v where a: "a = (k, v)" by (cases a)
  from Cons.prems a have above: "\<forall>e\<in>set es. k < fst e" and s: "sorted_keys es"
    by (simp_all add: sorted_keys_Cons)
  from above Cons.IH [OF s] a show ?case by (simp add: sorted_keys_Cons)
qed

lemma sorted_node_del: "sorted_keys b \<Longrightarrow> sorted_keys (node_del key b)"
  by (simp add: node_del_filter sorted_keys_filter)

lemma map_of_filter_key:
  "map_of (filter (\<lambda>e. P (fst e)) b) k = (if P k then map_of b k else None)"
  by (induction b) auto





lemma deleteKeys_filter:
  "sorted_keys b \<Longrightarrow> deleteKeys b ks = Inr (filter (\<lambda>e. fst e \<notin> set ks) b)"
proof (induction ks arbitrary: b)
  case Nil
  show ?case by simp
next
  case (Cons k ks)
  have "deleteKeys b (k # ks) = deleteKeys (node_del k b) ks"
    by (simp add: Delete_def)
  also have "\<dots> = Inr (filter (\<lambda>e. fst e \<notin> set ks) (node_del k b))"
    using Cons.prems by (simp add: Cons.IH sorted_node_del)
  also have "node_del k b = filter (\<lambda>e. fst e \<noteq> k) b"
    using Cons.prems by (rule node_del_filter)
  finally show ?case by (simp add: conj_commute)
qed

lemma ForEach_collect:
  "ForEach b (\<lambda>k v keys. (None, if extra k then keys @ [k] else keys)) acc
     = (None, acc @ filter extra (map fst b))"
proof (induction b arbitrary: acc)
  case Nil
  show ?case by simp
next
  case (Cons a es)
  obtain k v where a: "a = (k, v)" by (cases a)
  show ?case using a by (simp add: Cons.IH)
qed

lemma Bucket_setBucket:
  "Bucket (setBucket t n b) n' = (if n' = n then Some b else Bucket t n')"
  by (simp add: Bucket_def setBucket_def update_conv')

lemma names_differ: "defaultBucket \<noteq> replicaBucket" "replicaBucket \<noteq> defaultBucket"
  by (simp_all add: defaultBucket_def replicaBucket_def)


lemma wfD:
  assumes "wf d"
  shows "Bucket (db d) defaultBucket = Some (primary d)"
    and "Bucket (db d) replicaBucket = Some (outbox d)"
    and "sorted_keys (primary d)"
    and "sorted_keys (outbox d)"
  using assms by (auto simp: wf_def primary_def outbox_def split: option.splits)

lemma wfI:
  "Bucket (db d) defaultBucket = Some p \<Longrightarrow> Bucket (db d) replicaBucket = Some r
     \<Longrightarrow> sorted_keys p \<Longrightarrow> sorted_keys r \<Longrightarrow> wf d"
  by (simp add: wf_def)

lemma Put_Inr: "Put b key val = Inr b' \<Longrightarrow> b' = node_put key val b"
  by (simp add: Put_def split: if_splits)

lemma SetKey_eq:
  assumes "wf d"
  shows "SetKey d key val =
     (if readOnly d then (Some ReadOnlyMode, d)
      else case Put (primary d) key val of
        Inl e \<Rightarrow> (Some e, d)
      | Inr p' \<Rightarrow>
          (case Put (outbox d) key val of
             Inl e \<Rightarrow> (Some e, d)
           | Inr r' \<Rightarrow>
               (None, d\<lparr>db := setBucket (setBucket (db d) defaultBucket p') replicaBucket r'\<rparr>)))"
  using wfD(1,2) [OF assms]
  by (simp add: SetKey_def Update_def bucketPut_def Bucket_setBucket names_differ
      split: sum.splits)

lemma DeleteReplicationKey_eq:
  assumes "wf d"
  shows "DeleteReplicationKey d key val =
     (case Get (outbox d) key of
        None \<Rightarrow> (Some KeyDoesNotExist, d)
      | Some v \<Rightarrow>
          if v \<noteq> val then (Some ValueDoesNotMatch, d)
          else (None, d\<lparr>db := setBucket (db d) replicaBucket (node_del key (outbox d))\<rparr>))"
  using wfD(2) [OF assms]
  by (simp add: DeleteReplicationKey_def Update_def Delete_def split: option.splits)

lemma scanExtraKeys_eq:
  assumes "wf d"
  shows "scanExtraKeys (db d) extra = (None, filter extra (map fst (primary d)))"
  using wfD(1) [OF assms] ForEach_collect [of "primary d" extra "[]"]
  by (simp add: scanExtraKeys_def View_def)

lemma filter_not_extra:
  "filter (\<lambda>e. fst e \<notin> set (filter extra (map fst b))) b = filter (\<lambda>e. \<not> extra (fst e)) b"
  by (rule filter_cong) auto

lemma DeleteExtraKeys_eq:
  assumes "wf d"
  shows "DeleteExtraKeys d extra =
     (None, d\<lparr>db := setBucket (db d) defaultBucket (filter (\<lambda>e. \<not> extra (fst e)) (primary d))\<rparr>)"
proof -
  have dk: "deleteKeys (primary d) (filter extra (map fst (primary d)))
      = Inr (filter (\<lambda>e. \<not> extra (fst e)) (primary d))"
    by (simp only: deleteKeys_filter [OF wfD(3) [OF assms]] filter_not_extra)
  show ?thesis
    using wfD(1) [OF assms]
    by (simp add: DeleteExtraKeys_def scanExtraKeys_eq [OF assms] Update_def dk)
qed

lemma GetKey_eq: "wf d \<Longrightarrow> GetKey d key = (Get (primary d) key, None)"
  using wfD(1) [of d] by (simp add: GetKey_def View_def)





lemma Get_None_iff: "sorted_keys b \<Longrightarrow> (Get b k = None) = (k \<notin> fst ` set b)"
  by (simp add: Get_map_of map_of_eq_None_iff)

lemma SetKey_Some: "SetKey d key val = (Some e, d') \<Longrightarrow> d' = d"
  by (auto simp: SetKey_def Update_def split: if_splits sum.splits)

lemma SetKey_None:
  assumes w: "wf d" and ok: "SetKey d key val = (None, d')"
  shows "\<not> readOnly d \<and> readOnly d' = readOnly d
    \<and> primary d' = node_put key val (primary d)
    \<and> outbox d' = node_put key val (outbox d) \<and> wf d'"
proof -
  from ok have ro: "\<not> readOnly d"
    by (auto simp: SetKey_def)
  from ok ro have d': "d' = d\<lparr>db := setBucket (setBucket (db d) defaultBucket
        (node_put key val (primary d))) replicaBucket (node_put key val (outbox d))\<rparr>"
    by (auto simp: SetKey_eq [OF w] split: sum.splits dest: Put_Inr)
  have p: "primary d' = node_put key val (primary d)"
    by (simp add: d' primary_def Bucket_setBucket names_differ)
  have r: "outbox d' = node_put key val (outbox d)"
    by (simp add: d' outbox_def Bucket_setBucket names_differ)
  have "wf d'"
    by (rule wfI [of _ "node_put key val (primary d)" "node_put key val (outbox d)"])
      (simp_all add: d' Bucket_setBucket names_differ sorted_node_put wfD(3,4) [OF w])
  with ro p r show ?thesis by (simp add: d')
qed

lemma SetKey_succeeds_iff:
  assumes w: "wf d"
  shows "(fst (SetKey d key val) = None)
     = (\<not> readOnly d \<and> key \<noteq> [] \<and> length key \<le> MaxKeySize \<and> length val \<le> MaxValueSize)"
  by (auto simp: SetKey_eq [OF w] Put_def split: sum.splits if_splits)

lemma wf_SetKey: "wf d \<Longrightarrow> wf (snd (SetKey d key val))"
proof -
  assume w: "wf d"
  obtain e d' where r: "SetKey d key val = (e, d')" by (cases "SetKey d key val")
  show ?thesis
  proof (cases e)
    case None
    with r SetKey_None [OF w, of key val d'] show ?thesis by simp
  next
    case (Some x)
    with r SetKey_Some [of d key val x d'] w show ?thesis by simp
  qed
qed

lemma DeleteReplicationKey_Some: "DeleteReplicationKey d key val = (Some e, d') \<Longrightarrow> d' = d"
  by (auto simp: DeleteReplicationKey_def Update_def split: sum.splits)

lemma DeleteReplicationKey_None:
  assumes w: "wf d" and ok: "DeleteReplicationKey d key val = (None, d')"
  shows "Get (outbox d) key = Some val \<and> readOnly d' = readOnly d
    \<and> primary d' = primary d
    \<and> outbox d' = node_del key (outbox d) \<and> wf d'"
proof -
  from ok have g: "Get (outbox d) key = Some val"
    by (auto simp: DeleteReplicationKey_eq [OF w] split: option.splits if_splits)
  with ok have d': "d' = d\<lparr>db := setBucket (db d) replicaBucket (node_del key (outbox d))\<rparr>"
    by (simp add: DeleteReplicationKey_eq [OF w])
  have p: "primary d' = primary d"
    by (simp add: d' primary_def Bucket_setBucket names_differ)
  have r: "outbox d' = node_del key (outbox d)"
    by (simp add: d' outbox_def Bucket_setBucket names_differ)
  have "wf d'"
    by (rule wfI [of _ "primary d" "node_del key (outbox d)"])
      (simp_all add: d' Bucket_setBucket names_differ sorted_node_del wfD [OF w])
  with g p r show ?thesis by (simp add: d')
qed

lemma wf_DeleteReplicationKey: "wf d \<Longrightarrow> wf (snd (DeleteReplicationKey d key val))"
proof -
  assume w: "wf d"
  obtain e d' where r: "DeleteReplicationKey d key val = (e, d')"
    by (cases "DeleteReplicationKey d key val")
  show ?thesis
  proof (cases e)
    case None
    with r DeleteReplicationKey_None [OF w, of key val d'] show ?thesis by simp
  next
    case (Some x)
    with r DeleteReplicationKey_Some [of d key val x d'] w show ?thesis by simp
  qed
qed

lemma DeleteExtraKeys_effect:
  assumes w: "wf d"
  shows "fst (DeleteExtraKeys d extra) = None"
    and "readOnly (snd (DeleteExtraKeys d extra)) = readOnly d"
    and "primary (snd (DeleteExtraKeys d extra)) = filter (\<lambda>e. \<not> extra (fst e)) (primary d)"
    and "outbox (snd (DeleteExtraKeys d extra)) = outbox d"
    and "wf (snd (DeleteExtraKeys d extra))"
proof -
  let ?p = "filter (\<lambda>e. \<not> extra (fst e)) (primary d)"
  have e: "DeleteExtraKeys d extra = (None, d\<lparr>db := setBucket (db d) defaultBucket ?p\<rparr>)"
    by (rule DeleteExtraKeys_eq [OF w])
  show "fst (DeleteExtraKeys d extra) = None" by (simp add: e)
  show "readOnly (snd (DeleteExtraKeys d extra)) = readOnly d" by (simp add: e)
  show "primary (snd (DeleteExtraKeys d extra)) = ?p"
    by (simp add: e primary_def Bucket_setBucket)
  show "outbox (snd (DeleteExtraKeys d extra)) = outbox d"
    by (simp add: e outbox_def Bucket_setBucket names_differ)
  show "wf (snd (DeleteExtraKeys d extra))"
    unfolding e snd_conv
    by (rule wfI [of _ ?p "outbox d"])
      (simp_all add: Bucket_setBucket names_differ sorted_keys_filter wfD [OF w])
qed

lemma wf_exec: "wf d \<Longrightarrow> wf (exec d x)"
  by (cases x) (simp_all add: wf_SetKey wf_DeleteReplicationKey DeleteExtraKeys_effect(5))

lemma wf_run: "wf d \<Longrightarrow> wf (run d xs)"
  by (induction xs arbitrary: d) (simp_all add: wf_exec)

lemma readOnly_exec: "readOnly (exec d x) = readOnly d"
proof (cases x)
  case (OpSetKey k v)
  then show ?thesis
    by (simp add: SetKey_def Update_def split: sum.splits)
next
  case (OpDeleteReplicationKey k v)
  then show ?thesis
    by (simp add: DeleteReplicationKey_def Update_def split: sum.splits)
next
  case (OpDeleteExtraKeys p)
  then show ?thesis
    by (simp add: DeleteExtraKeys_def Update_def split: sum.splits option.splits prod.splits)
qed simp_all

lemma readOnly_run: "readOnly (run d xs) = readOnly d"
  by (induction xs arbitrary: d) (simp_all add: readOnly_exec)



lemma NewDatabase_wf:
  assumes n: "NewDatabase (Inr t) ro = Inr d"
    and p: "\<forall>b. Bucket t defaultBucket = Some b \<longrightarrow> sorted_keys b"
    and r: "\<forall>b. Bucket t replicaBucket = Some b \<longrightarrow> sorted_keys b"
  shows "wf d"
proof -
  let ?t1 = "case Bucket t defaultBucket of Some b \<Rightarrow> t | None \<Rightarrow> setBucket t defaultBucket []"
  let ?t2 = "case Bucket ?t1 replicaBucket of Some b \<Rightarrow> ?t1 | None \<Rightarrow> setBucket ?t1 replicaBucket []"
  from n have d: "d = \<lparr>db = ?t2, readOnly = ro\<rparr>"
    by (auto simp: NewDatabase_def createDefaultBucket_def Update_def CreateBucketIfNotExists_def
        defaultBucket_def replicaBucket_def split: option.splits)
  have "\<exists>b. Bucket ?t2 defaultBucket = Some b \<and> sorted_keys b"
    using p by (auto simp: Bucket_setBucket names_differ sorted_keys_Nil split: option.splits)
  moreover have "\<exists>b. Bucket ?t2 replicaBucket = Some b \<and> sorted_keys b"
    using r by (auto simp: Bucket_setBucket names_differ sorted_keys_Nil split: option.splits)
  ultimately show ?thesis
    unfolding d by (auto simp: wf_def)
qed

lemma NewDatabase_opens: "\<exists>d. NewDatabase (Inr t) ro = Inr d"
  by (auto simp: NewDatabase_def createDefaultBucket_def Update_def CreateBucketIfNotExists_def
      defaultBucket_def replicaBucket_def split: option.splits)

lemma Get_filter_key:
  "sorted_keys b \<Longrightarrow> Get (filter (\<lambda>e. P (fst e)) b) k = (if P k then Get b k else None)"
proof -
  assume s: "sorted_keys b"
  have "Get (filter (\<lambda>e. P (fst e)) b) k = map_of (filter (\<lambda>e. P (fst e)) b) k"
    using sorted_keys_filter [OF s] by (rule Get_map_of)
  then show ?thesis using s by (simp add: map_of_filter_key Get_map_of)
qed



section \<open>The claims\<close>

subsection \<open>C1: SetKey writes both regions or neither\<close>






subsection \<open>C2: acknowledgment of an outbox entry\<close>



subsection \<open>C3: SetKey then GetKey\<close>





subsection \<open>C4: the next entry for replication\<close>



subsection \<open>C5: deletion of the extra keys\<close>

text \<open>
  C5: on a handle whose buckets exist, \<open>DeleteExtraKeys\<close> returns no error. Its first
  transaction collects, in key order, the keys of the primary region for which
  \<open>extra\<close> holds; its second transaction deletes the collected keys from the primary
  region. Afterwards the primary region holds exactly the entries whose key does not
  satisfy \<open>extra\<close>, each with the value it had.
\<close>

theorem C5_DeleteExtraKeys:
  "wf d \<Longrightarrow>
     scanExtraKeys (db d) extra = (None, filter extra (map fst (primary d))) \<and>
     fst (DeleteExtraKeys d extra) = None \<and>
     deleteKeys (primary d) (snd (scanExtraKeys (db d) extra))
       = Inr (primary (snd (DeleteExtraKeys d extra))) \<and>
     primary (snd (DeleteExtraKeys d extra)) = filter (\<lambda>e. \<not> extra (fst e)) (primary d) \<and>
     (\<forall>k. GetKey (snd (DeleteExtraKeys d extra)) k
        = (if extra k then (None, None) else GetKey d k))"
proof -
  assume w: "wf d"
  note s = wfD(3) [OF w]
  note w' = DeleteExtraKeys_effect(5) [OF w, of extra]
  note p = DeleteExtraKeys_effect(3) [OF w, of extra]
  have scan: "scanExtraKeys (db d) extra = (None, filter extra (map fst (primary d)))"
    by (rule scanExtraKeys_eq [OF w])
  have del: "deleteKeys (primary d) (snd (scanExtraKeys (db d) extra))
       = Inr (primary (snd (DeleteExtraKeys d extra)))"
    by (simp only: scan snd_conv deleteKeys_filter [OF s] filter_not_extra p)
  have get: "\<forall>k. GetKey (snd (DeleteExtraKeys d extra)) k
        = (if extra k then (None, None) else GetKey d k)"
  proof
    fix k
    show "GetKey (snd (DeleteExtraKeys d extra)) k = (if extra k then (None, None) else GetKey d k)"
      using Get_filter_key [OF s, of "\<lambda>x. \<not> extra x" k]
      by (simp add: GetKey_eq [OF w'] GetKey_eq [OF w] p)
  qed
  from scan del get p DeleteExtraKeys_effect(1) [OF w, of extra] show ?thesis
    by blast
qed

theorem C5_DeleteExtraKeys_witness:
  "wf \<lparr>db = [(''default'', [(''alice'', ''v1''), (''bob'', ''v2'')]),
             (''replication'', [(''alice'', ''v1'')])], readOnly = False\<rparr>
   \<and> scanExtraKeys [(''default'', [(''alice'', ''v1''), (''bob'', ''v2'')]),
             (''replication'', [(''alice'', ''v1'')])] (\<lambda>k. k = ''alice'') = (None, [''alice''])
   \<and> primary (snd (DeleteExtraKeys \<lparr>db = [(''default'', [(''alice'', ''v1''), (''bob'', ''v2'')]),
             (''replication'', [(''alice'', ''v1'')])], readOnly = False\<rparr> (\<lambda>k. k = ''alice'')))
       = [(''bob'', ''v2'')]
   \<and> fst (DeleteExtraKeys \<lparr>db = [(''default'', [(''alice'', ''v1''), (''bob'', ''v2'')]),
             (''replication'', [(''alice'', ''v1'')])], readOnly = False\<rparr> (\<lambda>k. k = ''alice''))
       = None"
proof -
  have h: "wf \<lparr>db = [(''default'', [(''alice'', ''v1''), (''bob'', ''v2'')]),
             (''replication'', [(''alice'', ''v1'')])], readOnly = False\<rparr>"
    by (simp add: wf_def Bucket_def defaultBucket_def replicaBucket_def sorted_keys_def)
  have p: "primary \<lparr>db = [(''default'', [(''alice'', ''v1''), (''bob'', ''v2'')]),
             (''replication'', [(''alice'', ''v1'')])], readOnly = False\<rparr>
       = [(''alice'', ''v1''), (''bob'', ''v2'')]"
    by (simp add: primary_def Bucket_def defaultBucket_def replicaBucket_def)
  from C5_DeleteExtraKeys [OF h, of "\<lambda>k. k = ''alice''"] h
  show ?thesis by (simp add: p)
qed

subsection \<open>C6: a read-only handle\<close>

lemma NewDatabase_readOnly: "NewDatabase opened ro = Inr d \<Longrightarrow> readOnly d = ro"
  by (auto simp: NewDatabase_def createDefaultBucket_def Update_def
      split: sum.splits option.splits prod.splits)

lemma SetKey_readOnly: "readOnly d \<Longrightarrow> SetKey d k v = (Some ReadOnlyMode, d)"
  by (simp add: SetKey_def)

text \<open>
  C6: let \<open>d\<close> be a handle opened read-only, and \<open>ops\<close> any calls made on it since.
  The handle is still read-only; \<open>SetKey\<close> returns "read only mode" and leaves the
  handle, hence both regions, unchanged; \<open>GetKey\<close> returns no error, and a nil value
  for a key that the primary region does not hold.
\<close>

theorem C6_read_only_handle:
  "NewDatabase opened True = Inr d \<Longrightarrow> wf d \<Longrightarrow>
     readOnly (run d ops) \<and>
     SetKey (run d ops) k v = (Some ReadOnlyMode, run d ops) \<and>
     primary (snd (SetKey (run d ops) k v)) = primary (run d ops) \<and>
     outbox (snd (SetKey (run d ops) k v)) = outbox (run d ops) \<and>
     snd (GetKey (run d ops) k') = None \<and>
     (k' \<notin> fst ` set (primary (run d ops)) \<longrightarrow> GetKey (run d ops) k' = (None, None))"
proof -
  assume n: "NewDatabase opened True = Inr d" and w: "wf d"
  from NewDatabase_readOnly [OF n] have ro: "readOnly (run d ops)"
    by (simp add: readOnly_run)
  note w' = wf_run [OF w, of ops]
  have g: "k' \<notin> fst ` set (primary (run d ops)) \<longrightarrow> GetKey (run d ops) k' = (None, None)"
    by (simp add: GetKey_eq [OF w'] Get_None_iff [OF wfD(3) [OF w']])
  from ro g show ?thesis
    by (simp add: SetKey_readOnly GetKey_eq [OF w'])
qed

theorem C6_read_only_handle_witness:
  "NewDatabase (Inr []) True
       = Inr \<lparr>db = [(''default'', []), (''replication'', [])], readOnly = True\<rparr>
   \<and> wf \<lparr>db = [(''default'', []), (''replication'', [])], readOnly = True\<rparr>
   \<and> SetKey \<lparr>db = [(''default'', []), (''replication'', [])], readOnly = True\<rparr> ''k'' ''v''
       = (Some ReadOnlyMode, \<lparr>db = [(''default'', []), (''replication'', [])], readOnly = True\<rparr>)
   \<and> GetKey \<lparr>db = [(''default'', []), (''replication'', [])], readOnly = True\<rparr> ''k''
       = (None, None)"
proof -
  have h1: "NewDatabase (Inr []) True
       = Inr \<lparr>db = [(''default'', []), (''replication'', [])], readOnly = True\<rparr>"
    by (simp add: NewDatabase_def createDefaultBucket_def Update_def CreateBucketIfNotExists_def
        Bucket_def setBucket_def defaultBucket_def replicaBucket_def)
  have h2: "wf \<lparr>db = [(''default'', []), (''replication'', [])], readOnly = True\<rparr>"
    by (simp add: wf_def Bucket_def defaultBucket_def replicaBucket_def sorted_keys_def)
  have p: "primary \<lparr>db = [(''default'', []), (''replication'', [])], readOnly = True\<rparr> = []"
    by (simp add: primary_def Bucket_def defaultBucket_def replicaBucket_def)
  from C6_read_only_handle [OF h1 h2, of "[]" "''k''" "''v''" "''k''"] h1 h2
  show ?thesis by (simp add: p)
qed

subsection \<open>C7: the owner of a key\<close>




subsection \<open>C8: the process inputs\<close>

text \<open>
  The claim C8 as stated fails for the path of the shard-list configuration: with
  the flag \<open>config-file\<close> absent and the other three given, \<open>init\<close> returns, \<open>main\<close>
  reads \<open>sharding.toml\<close>, and the process serves.
\<close>

theorem C8_config_file_absent_counterexample:
  "arg_config_file \<lparr>arg_db_location = Some ''/tmp/db'', arg_http_addr = Some '':8080'',
       arg_config_file = None, arg_shard = Some ''Xian''\<rparr> = None
   \<and> process okParseFile okParseShards okNewDatabase
       \<lparr>arg_db_location = Some ''/tmp/db'', arg_http_addr = Some '':8080'',
        arg_config_file = None, arg_shard = Some ''Xian''\<rparr> = ListenAndServe '':8080''
   \<and> \<not> isFatal (process okParseFile okParseShards okNewDatabase
       \<lparr>arg_db_location = Some ''/tmp/db'', arg_http_addr = Some '':8080'',
        arg_config_file = None, arg_shard = Some ''Xian''\<rparr>)"
  by (simp add: process_def init_def main_def flag_Parse_def flag_String_def isFatal_def
      okParseFile_def okParseShards_def okNewDatabase_def)

text \<open>
  C8 (amended): when the storage path, the listen address or the shard name is
  absent from the command line, or given as the empty string, the process ends in
  \<open>log.Fatal\<close> before it serves, whatever the configuration and the file system. An
  absent path of the shard-list configuration is not an error: the process goes on
  exactly as if \<open>sharding.toml\<close> had been given.
\<close>

theorem C8_required_flags:
  "((arg_db_location c = None \<or> arg_db_location c = Some []
       \<or> arg_http_addr c = None \<or> arg_http_addr c = Some []
       \<or> arg_shard c = None \<or> arg_shard c = Some [])
      \<longrightarrow> (\<exists>msg. process ParseFile ParseShards newDatabase c = Fatal msg)
          \<and> isFatal (process ParseFile ParseShards newDatabase c)) \<and>
   (arg_config_file c = None
      \<longrightarrow> configFileName (flag_Parse c) = ''sharding.toml''
          \<and> process ParseFile ParseShards newDatabase c
              = process ParseFile ParseShards newDatabase
                  (c\<lparr>arg_config_file := Some ''sharding.toml''\<rparr>))"
  by (auto simp: process_def init_def flag_Parse_def flag_String_def isFatal_def)

theorem C8_required_flags_witness:
  "arg_shard \<lparr>arg_db_location = Some ''/tmp/db'', arg_http_addr = Some '':8080'',
       arg_config_file = Some ''sharding.toml'', arg_shard = None\<rparr> = None
   \<and> isFatal (process okParseFile okParseShards okNewDatabase
       \<lparr>arg_db_location = Some ''/tmp/db'', arg_http_addr = Some '':8080'',
        arg_config_file = Some ''sharding.toml'', arg_shard = None\<rparr>)
   \<and> arg_config_file \<lparr>arg_db_location = Some ''/tmp/db'', arg_http_addr = Some '':8080'',
       arg_config_file = None, arg_shard = Some ''Xian''\<rparr> = None
   \<and> configFileName (flag_Parse \<lparr>arg_db_location = Some ''/tmp/db'',
       arg_http_addr = Some '':8080'', arg_config_file = None, arg_shard = Some ''Xian''\<rparr>)
       = ''sharding.toml''"
  using C8_required_flags [of "\<lparr>arg_db_location = Some ''/tmp/db'', arg_http_addr = Some '':8080'',
       arg_config_file = Some ''sharding.toml'', arg_shard = None\<rparr>"
       okParseFile okParseShards okNewDatabase]
    C8_required_flags [of "\<lparr>arg_db_location = Some ''/tmp/db'', arg_http_addr = Some '':8080'',
       arg_config_file = None, arg_shard = Some ''Xian''\<rparr>"
       okParseFile okParseShards okNewDatabase]
  by simp

subsection \<open>C9: DeleteExtraKeys and the outbox\<close>

text \<open>
  C9: \<open>DeleteExtraKeys\<close> leaves the replication bucket as it was, whatever the
  predicate and the content of the store, and whether or not it returns an error:
  the outbox after the call is the outbox before the call.
\<close>

theorem C9_DeleteExtraKeys_outbox_unchanged:
  "Bucket (db (snd (DeleteExtraKeys d extra))) replicaBucket = Bucket (db d) replicaBucket
   \<and> outbox (snd (DeleteExtraKeys d extra)) = outbox d"
proof -
  have "Bucket (db (snd (DeleteExtraKeys d extra))) replicaBucket = Bucket (db d) replicaBucket"
    by (simp add: DeleteExtraKeys_def Update_def Bucket_setBucket names_differ
        split: prod.splits option.splits sum.splits)
  then show ?thesis by (simp add: outbox_def)
qed

subsection \<open>C10: the outbox mirrors the primary region\<close>





end
